theory Spec2Isabelle
  imports Main "HOL-Library.Sublist"
begin

section \<open>Run state of BlockSpool: values, files and the clock\<close>

text \<open>
  The run state lives in \<^verbatim>\<open>.blockspool/run-state.json\<close>. What \<^verbatim>\<open>JSON.parse\<close> returns is
  a JSON value, and the TypeScript annotations of \<^verbatim>\<open>RunState\<close> and \<^verbatim>\<open>DeferredProposal\<close>
  are not checked at run time, so the operations are modelled on JSON values, with the
  dynamic behaviour of the expressions the source uses (property reads, \<^verbatim>\<open>??\<close>,
  \<^verbatim>\<open>===\<close>, numeric coercion, a \<^verbatim>\<open>TypeError\<close> on \<^verbatim>\<open>null\<close> and \<^verbatim>\<open>undefined\<close>).

  Numbers are integers: cycle counters, epoch milliseconds and scores, the range on
  which the arithmetic of the source (\<^verbatim>\<open>+ 1\<close>, \<^verbatim>\<open>-\<close>, \<^verbatim>\<open>>\<close>, \<^verbatim>\<open>>=\<close>) is exact.
  A string is the list of its code units; \<^verbatim>\<open>length\<close>, \<^verbatim>\<open>slice\<close>, \<^verbatim>\<open>startsWith\<close> and the
  end-anchored \<^verbatim>\<open>replace\<close> calls of the source work unit by unit.
  An object is an association list read with \<^const>\<open>map_of\<close>.

  One array is shared: \<^verbatim>\<open>{ ...DEFAULT_STATE }\<close> copies the four fields of the default
  state, so the copy's \<^verbatim>\<open>deferredProposals\<close> is the array of the module-level constant
  itself, and deferProposal pushes into whatever array the state it read refers to. The
  model therefore keeps the content of that array next to the files, and a state refers
  to its array of proposals rather than containing it.
\<close>

datatype json =
    JNull
  | JBool bool
  | JNum int
  | JStr string
  | JArr "json list"
  | JObj "(string \<times> json) list"

text \<open>A run-time value is a JSON value or \<^verbatim>\<open>undefined\<close> (\<^const>\<open>None\<close>).\<close>

type_synonym jsval = "json option"

text \<open>
  \<^verbatim>\<open>TypeError\<close> is the exception JavaScript raises. \<open>NotModelled\<close> marks the two
  coercions this development leaves out: the numeric value of a string, an array or an
  object, and \<^verbatim>\<open>+ 1\<close> on an array or an object. An outcome \<open>NotModelled\<close> says nothing
  about what the code does; a state with integer counters and well-typed proposals never
  leads to it.
\<close>

datatype error = TypeError | NotModelled

datatype jsnum = Num int | NaN

text \<open>
  The DeferredProposal interface (source lines 11 to 21), and the object that
  a value of the interface is at run time.
\<close>

record DeferredProposal =
  category :: string
  title :: string
  description :: string
  files :: "string list"
  allowed_paths :: "string list"
  confidence :: int
  impact_score :: int
  original_scope :: string
  deferredAt :: int

definition proposalObject :: "DeferredProposal \<Rightarrow> json" where
  "proposalObject p = JObj
     [(''category'', JStr (category p)),
      (''title'', JStr (title p)),
      (''description'', JStr (description p)),
      (''files'', JArr (map JStr (files p))),
      (''allowed_paths'', JArr (map JStr (allowed_paths p))),
      (''confidence'', JNum (confidence p)),
      (''impact_score'', JNum (impact_score p)),
      (''original_scope'', JStr (original_scope p)),
      (''deferredAt'', JNum (deferredAt p))]"

text \<open>
  An array of proposals that a state refers to: the array of \<^verbatim>\<open>DEFAULT_STATE\<close>, which
  every copy of the default state shares, or an array of the state's own (the one
  \<^verbatim>\<open>JSON.parse\<close> built, an array literal, or the \<^verbatim>\<open>remaining\<close> of popDeferredForScope).
\<close>

datatype arrayRef = DefaultArray | OwnArray "json list"

text \<open>
  The RunState object that readRunState builds (source lines 57 to 62): three fields hold
  whatever the file held, the fourth always refers to an array.
\<close>

record RunState =
  totalCycles :: json
  lastDocsAuditCycle :: json
  lastRunAt :: json
  deferredProposals :: arrayRef

text \<open>
  A RunState as the interface declares it: integer counters and an array of its own
  holding proposals.
\<close>

definition typedState :: "int \<Rightarrow> int \<Rightarrow> int \<Rightarrow> DeferredProposal list \<Rightarrow> RunState" where
  "typedState tc la lr dps =
     \<lparr>totalCycles = JNum tc, lastDocsAuditCycle = JNum la, lastRunAt = JNum lr,
      deferredProposals = OwnArray (map proposalObject dps)\<rparr>"

text \<open>
  The state file of a repository root: absent, present with a content that
  \<^verbatim>\<open>JSON.parse\<close> rejects, or present with a JSON document.
\<close>

datatype stateFile = Absent | Invalid | Doc json

text \<open>
  What the operations read and change: the state file at statePath(root) of every
  repository root, and the content of the array \<^verbatim>\<open>DEFAULT_STATE.deferredProposals\<close> of
  the running process.
\<close>

record world =
  stateFiles :: "string \<Rightarrow> stateFile"
  defaultProposals :: "json list"

text \<open>The elements of the array a state refers to.\<close>

fun elements :: "world \<Rightarrow> arrayRef \<Rightarrow> json list" where
  "elements w DefaultArray = defaultProposals w"
| "elements w (OwnArray xs) = xs"

subsection \<open>Expressions of the source\<close>

text \<open>Sequencing: an exception raised by the first step skips the rest.\<close>

definition bindE :: "error + 'a \<Rightarrow> ('a \<Rightarrow> error + 'b) \<Rightarrow> error + 'b" where
  "bindE m f = (case m of Inl e \<Rightarrow> Inl e | Inr x \<Rightarrow> f x)"

text \<open>\<^verbatim>\<open>v.k\<close> for the field names of the two interfaces, none of which a prototype defines.\<close>

fun getProp :: "jsval \<Rightarrow> string \<Rightarrow> error + jsval" where
  "getProp None k = Inl TypeError"
| "getProp (Some JNull) k = Inl TypeError"
| "getProp (Some (JObj kvs)) k = Inr (map_of kvs k)"
| "getProp (Some v) k = Inr None"

text \<open>\<^verbatim>\<open>v.length\<close>: strings and arrays have one of their own.\<close>

fun getLength :: "jsval \<Rightarrow> error + jsval" where
  "getLength None = Inl TypeError"
| "getLength (Some JNull) = Inl TypeError"
| "getLength (Some (JStr s)) = Inr (Some (JNum (int (length s))))"
| "getLength (Some (JArr xs)) = Inr (Some (JNum (int (length xs))))"
| "getLength (Some (JObj kvs)) = Inr (map_of kvs ''length'')"
| "getLength (Some v) = Inr None"

text \<open>\<^verbatim>\<open>a ?? d\<close>\<close>

fun nullish :: "jsval \<Rightarrow> json \<Rightarrow> json" where
  "nullish None d = d"
| "nullish (Some JNull) d = d"
| "nullish (Some v) d = v"

text \<open>The numeric value of an operand of \<^verbatim>\<open>-\<close> or \<^verbatim>\<open>>\<close>.\<close>

fun ToNumber :: "jsval \<Rightarrow> error + jsnum" where
  "ToNumber None = Inr NaN"
| "ToNumber (Some JNull) = Inr (Num 0)"
| "ToNumber (Some (JBool b)) = Inr (Num (if b then 1 else 0))"
| "ToNumber (Some (JNum n)) = Inr (Num n)"
| "ToNumber (Some v) = Inl NotModelled"

fun minus_num :: "jsnum \<Rightarrow> jsnum \<Rightarrow> jsnum" where
  "minus_num (Num a) (Num b) = Num (a - b)"
| "minus_num a b = NaN"

fun gt_num :: "jsnum \<Rightarrow> jsnum \<Rightarrow> bool" where
  "gt_num (Num a) (Num b) = (a > b)"
| "gt_num a b = False"

fun ge_num :: "jsnum \<Rightarrow> jsnum \<Rightarrow> bool" where
  "ge_num (Num a) (Num b) = (a \<ge> b)"
| "ge_num a b = False"

text \<open>\<^verbatim>\<open>v + 1\<close>, for a value that \<^verbatim>\<open>??\<close> has made non-null.\<close>

fun plusOne :: "json \<Rightarrow> error + json" where
  "plusOne (JNum n) = Inr (JNum (n + 1))"
| "plusOne (JBool b) = Inr (JNum ((if b then 1 else 0) + 1))"
| "plusOne JNull = Inr (JNum 1)"
| "plusOne (JStr s) = Inr (JStr (s @ ''1''))"
| "plusOne v = Inl NotModelled"

subsection \<open>Reading and writing the state\<close>

text \<open>
  Source lines 40 to 45. The record is also what \<^verbatim>\<open>{ ...DEFAULT_STATE }\<close> evaluates to:
  a new object with the same four field values, the fourth being the same array.
\<close>

definition DEFAULT_STATE :: RunState where
  "DEFAULT_STATE =
     \<lparr>totalCycles = JNum 0, lastDocsAuditCycle = JNum 0, lastRunAt = JNum 0,
      deferredProposals = DefaultArray\<rparr>"

text \<open>
  The object literal of source lines 57 to 62. Reading a property of \<^verbatim>\<open>null\<close> raises,
  and the \<^verbatim>\<open>catch\<close> of line 63 turns every exception into the default state.
\<close>

definition fromParsed :: "json \<Rightarrow> error + RunState" where
  "fromParsed parsed =
     bindE (getProp (Some parsed) ''totalCycles'') (\<lambda>tc.
     bindE (getProp (Some parsed) ''lastDocsAuditCycle'') (\<lambda>la.
     bindE (getProp (Some parsed) ''lastRunAt'') (\<lambda>lr.
     bindE (getProp (Some parsed) ''deferredProposals'') (\<lambda>dps.
       Inr \<lparr>totalCycles = nullish tc (JNum 0),
            lastDocsAuditCycle = nullish la (JNum 0),
            lastRunAt = nullish lr (JNum 0),
            deferredProposals =
              (case dps of Some (JArr xs) \<Rightarrow> OwnArray xs | _ \<Rightarrow> OwnArray [])\<rparr>))))"

definition readRunState :: "world \<Rightarrow> string \<Rightarrow> RunState" where
  "readRunState w repoRoot =
     (case stateFiles w repoRoot of
        Absent \<Rightarrow> DEFAULT_STATE
      | Invalid \<Rightarrow> DEFAULT_STATE
      | Doc parsed \<Rightarrow> (case fromParsed parsed of Inl e \<Rightarrow> DEFAULT_STATE | Inr s \<Rightarrow> s))"

text \<open>
  What \<^verbatim>\<open>JSON.stringify(state, null, 2)\<close> serialises: the four fields in order, the
  array by its elements.
\<close>

definition stateDoc :: "world \<Rightarrow> RunState \<Rightarrow> json" where
  "stateDoc w s = JObj
     [(''totalCycles'', totalCycles s),
      (''lastDocsAuditCycle'', lastDocsAuditCycle s),
      (''lastRunAt'', lastRunAt s),
      (''deferredProposals'', JArr (elements w (deferredProposals s)))]"

text \<open>A state file is replaced; the writes of the source and those of anyone else.\<close>

definition putFile :: "string \<Rightarrow> stateFile \<Rightarrow> world \<Rightarrow> world" where
  "putFile repoRoot f w = w\<lparr>stateFiles := (stateFiles w)(repoRoot := f)\<rparr>"

definition writeRunState :: "string \<Rightarrow> RunState \<Rightarrow> world \<Rightarrow> world" where
  "writeRunState repoRoot s w = putFile repoRoot (Doc (stateDoc w s)) w"

subsection \<open>The operations\<close>

text \<open>
  Every operation takes the clock where it reads it, the repository root and the world,
  and returns its result (or the exception that reaches the caller) with the world it
  leaves behind.
\<close>

definition recordCycle :: "int \<Rightarrow> string \<Rightarrow> world \<Rightarrow> (error + RunState) \<times> world" where
  "recordCycle now repoRoot w =
     (let s = readRunState w repoRoot in
      case plusOne (totalCycles s) of
        Inl e \<Rightarrow> (Inl e, w)
      | Inr tc \<Rightarrow>
          (let s' = s\<lparr>totalCycles := tc, lastRunAt := JNum now\<rparr>
           in (Inr s', writeRunState repoRoot s' w)))"

definition isDocsAuditDue :: "string \<Rightarrow> int \<Rightarrow> world \<Rightarrow> (error + bool) \<times> world" where
  "isDocsAuditDue repoRoot interval w =
     (let s = readRunState w repoRoot
      in (bindE (ToNumber (Some (totalCycles s))) (\<lambda>a.
          bindE (ToNumber (Some (lastDocsAuditCycle s))) (\<lambda>b.
            Inr (ge_num (minus_num a b) (Num interval)))),
          w))"

definition recordDocsAudit :: "string \<Rightarrow> world \<Rightarrow> (error + unit) \<times> world" where
  "recordDocsAudit repoRoot w =
     (let s = readRunState w repoRoot;
          s' = s\<lparr>lastDocsAuditCycle := totalCycles s\<rparr>
      in (Inr (), writeRunState repoRoot s' w))"

definition MAX_DEFERRED_AGE_MS :: int where
  "MAX_DEFERRED_AGE_MS = 7 * 24 * 60 * 60 * 1000"

text \<open>\<^verbatim>\<open>state.deferredProposals.some(d => d.title === t)\<close>, stopping at the first hit.\<close>

fun someTitle :: "json list \<Rightarrow> string \<Rightarrow> error + bool" where
  "someTitle [] t = Inr False"
| "someTitle (x # xs) t =
     (case getProp (Some x) ''title'' of
        Inl e \<Rightarrow> Inl e
      | Inr v \<Rightarrow> if v = Some (JStr t) then Inr True else someTitle xs t)"

text \<open>
  \<^verbatim>\<open>state.deferredProposals.push(x)\<close>: the array the state refers to grows in place. When
  it is the array of \<^verbatim>\<open>DEFAULT_STATE\<close>, that is the array every later copy of the default
  state will refer to.
\<close>

fun push :: "RunState \<Rightarrow> json \<Rightarrow> world \<Rightarrow> RunState \<times> world" where
  "push s x w =
     (case deferredProposals s of
        DefaultArray \<Rightarrow> (s, w\<lparr>defaultProposals := defaultProposals w @ [x]\<rparr>)
      | OwnArray xs \<Rightarrow> (s\<lparr>deferredProposals := OwnArray (xs @ [x])\<rparr>, w))"

definition deferProposal ::
  "string \<Rightarrow> DeferredProposal \<Rightarrow> world \<Rightarrow> (error + unit) \<times> world"
where
  "deferProposal repoRoot proposal w =
     (let s = readRunState w repoRoot in
      case someTitle (elements w (deferredProposals s)) (title proposal) of
        Inl e \<Rightarrow> (Inl e, w)
      | Inr dup \<Rightarrow>
          if dup then (Inr (), w)
          else (case push s (proposalObject proposal) w of
                  (s', w') \<Rightarrow> (Inr (), writeRunState repoRoot s' w')))"

text \<open>
  \<^verbatim>\<open>s.replace(/suf$/, '')\<close> for a literal \<open>suf\<close>: the pattern is anchored at the end of
  the input, so it can only match the last units of \<open>s\<close>.
\<close>

definition stripSuffix :: "string \<Rightarrow> string \<Rightarrow> string" where
  "stripSuffix suf s = (if suffix suf s then take (length s - length suf) s else s)"

text \<open>Source line 130.\<close>

definition normalizedScope :: "string \<Rightarrow> string" where
  "normalizedScope scope = stripSuffix ''/'' (stripSuffix ''*'' (stripSuffix ''**'' scope))"

text \<open>Source line 137: \<^verbatim>\<open>now - dp.deferredAt > MAX_DEFERRED_AGE_MS\<close>.\<close>

definition isStale :: "int \<Rightarrow> json \<Rightarrow> error + bool" where
  "isStale now dp =
     bindE (getProp (Some dp) ''deferredAt'') (\<lambda>at.
     bindE (ToNumber at) (\<lambda>n.
       Inr (gt_num (minus_num (Num now) n) (Num MAX_DEFERRED_AGE_MS))))"

text \<open>Source line 139: \<^verbatim>\<open>dp.files.length > 0 ? dp.files : dp.allowed_paths\<close>.\<close>

definition effectiveFiles :: "json \<Rightarrow> error + jsval" where
  "effectiveFiles dp =
     bindE (getProp (Some dp) ''files'') (\<lambda>fs.
     bindE (getLength fs) (\<lambda>len.
     bindE (ToNumber len) (\<lambda>n.
       if gt_num n (Num 0) then Inr fs else getProp (Some dp) ''allowed_paths'')))"

text \<open>
  The callback of source line 141. Only a string has a \<^verbatim>\<open>startsWith\<close> to call.
\<close>

definition scopeCallback :: "string \<Rightarrow> json \<Rightarrow> error + bool" where
  "scopeCallback ns f =
     (case f of
        JStr s \<Rightarrow> Inr (prefix ns s \<or> prefix (ns @ ''/'') s)
      | _ \<Rightarrow> Inl TypeError)"

text \<open>\<^verbatim>\<open>Array.prototype.every\<close>: in order, stopping at the first element that fails.\<close>

fun every :: "(json \<Rightarrow> error + bool) \<Rightarrow> json list \<Rightarrow> error + bool" where
  "every cb [] = Inr True"
| "every cb (x # xs) =
     (case cb x of
        Inl e \<Rightarrow> Inl e
      | Inr b \<Rightarrow> if b then every cb xs else Inr False)"

text \<open>\<^verbatim>\<open>files.every(cb)\<close>: only an array has an \<^verbatim>\<open>every\<close> to call.\<close>

fun callEvery :: "jsval \<Rightarrow> (json \<Rightarrow> error + bool) \<Rightarrow> error + bool" where
  "callEvery (Some (JArr xs)) cb = every cb xs"
| "callEvery v cb = Inl TypeError"

text \<open>Source lines 140 to 142, with the short circuit of \<^verbatim>\<open>||\<close>.\<close>

definition inScope :: "string \<Rightarrow> jsval \<Rightarrow> error + bool" where
  "inScope ns fs =
     (if ns = [] then Inr True
      else bindE (getLength fs) (\<lambda>len.
        if len = Some (JNum 0) then Inr True
        else callEvery fs (scopeCallback ns)))"

text \<open>The loop of source lines 135 to 149, with its two accumulators.\<close>

fun popLoop ::
  "int \<Rightarrow> string \<Rightarrow> json list \<Rightarrow> json list \<Rightarrow> json list \<Rightarrow> error + (json list \<times> json list)"
where
  "popLoop now ns [] matched remaining = Inr (matched, remaining)"
| "popLoop now ns (dp # rest) matched remaining =
     bindE (isStale now dp) (\<lambda>stale.
       if stale then popLoop now ns rest matched remaining
       else
         bindE (effectiveFiles dp) (\<lambda>fs.
         bindE (inScope ns fs) (\<lambda>ok.
           if ok then popLoop now ns rest (matched @ [dp]) remaining
           else popLoop now ns rest matched (remaining @ [dp]))))"

definition popDeferredForScope ::
  "int \<Rightarrow> string \<Rightarrow> string \<Rightarrow> world \<Rightarrow> (error + json list) \<times> world"
where
  "popDeferredForScope now repoRoot scope w =
     (let s = readRunState w repoRoot;
          ns = normalizedScope scope
      in case popLoop now ns (elements w (deferredProposals s)) [] [] of
           Inl e \<Rightarrow> (Inl e, w)
         | Inr (matched, remaining) \<Rightarrow>
             if length matched > 0
                \<or> length remaining \<noteq> length (elements w (deferredProposals s))
             then (Inr matched,
                   writeRunState repoRoot (s\<lparr>deferredProposals := OwnArray remaining\<rparr>) w)
             else (Inr matched, w))"

section \<open>Project guidelines\<close>

record ProjectGuidelines =
  content :: string
  source :: string
  loadedAt :: int

datatype GuidelinesBackend = Claude | Codex

text \<open>\<^verbatim>\<open>customPath?: string | false | null\<close>\<close>

datatype customPathOption = CustomFalse | CustomString string | CustomNone

record GuidelinesOptions =
  backend :: "GuidelinesBackend option"
  customPath :: customPathOption

text \<open>
  A path under a repository root: nothing there, something that cannot be read as a
  file, or a file with its decoded text. A tree maps a root and a relative path to
  what \<^verbatim>\<open>path.join\<close> of the two names.
\<close>

datatype guideFile = NoFile | Unreadable | Text string

type_synonym tree = "string \<Rightarrow> string \<Rightarrow> guideFile"

definition CLAUDE_PATHS :: "string list" where
  "CLAUDE_PATHS = [''CLAUDE.md'']"

definition CODEX_PATHS :: "string list" where
  "CODEX_PATHS = [''AGENTS.md'']"

definition MAX_CHARS :: nat where
  "MAX_CHARS = 4000"

definition truncationMarker :: string where
  "truncationMarker = [CHR 0x0A, CHR 0x0A] @ ''[truncated]''"

definition readGuidelinesFile ::
  "int \<Rightarrow> tree \<Rightarrow> string \<Rightarrow> string \<Rightarrow> ProjectGuidelines option"
where
  "readGuidelinesFile now t repoRoot rel =
     (case t repoRoot rel of
        NoFile \<Rightarrow> None
      | Unreadable \<Rightarrow> None
      | Text c \<Rightarrow>
          Some \<lparr>content =
                  (if length c > MAX_CHARS then take MAX_CHARS c @ truncationMarker else c),
                source = rel, loadedAt = now\<rparr>)"

fun searchPaths ::
  "int \<Rightarrow> tree \<Rightarrow> string \<Rightarrow> string list \<Rightarrow> ProjectGuidelines option"
where
  "searchPaths now t repoRoot [] = None"
| "searchPaths now t repoRoot (rel # rest) =
     (case readGuidelinesFile now t repoRoot rel of
        Some result \<Rightarrow> Some result
      | None \<Rightarrow> searchPaths now t repoRoot rest)"

definition loadGuidelines ::
  "int \<Rightarrow> tree \<Rightarrow> string \<Rightarrow> GuidelinesOptions \<Rightarrow> ProjectGuidelines option"
where
  "loadGuidelines now t repoRoot opts =
     (case customPath opts of
        CustomFalse \<Rightarrow> None
      | CustomString p \<Rightarrow> readGuidelinesFile now t repoRoot p
      | CustomNone \<Rightarrow>
          (let b = (case backend opts of None \<Rightarrow> Claude | Some b \<Rightarrow> b);
               primaryPaths = (if b = Codex then CODEX_PATHS else CLAUDE_PATHS);
               fallbackPaths = (if b = Codex then CLAUDE_PATHS else CODEX_PATHS)
           in case searchPaths now t repoRoot primaryPaths of
                Some g \<Rightarrow> Some g
              | None \<Rightarrow> searchPaths now t repoRoot fallbackPaths))"

section \<open>Typed readings used in the statements\<close>

text \<open>A process that has just started, on a disk where no repository has a state file.\<close>

definition freshProcess :: world where
  "freshProcess = \<lparr>stateFiles = (\<lambda>repoRoot. Absent), defaultProposals = []\<rparr>"

text \<open>A tree in which no repository has a guidelines file.\<close>

definition noGuidelines :: tree where
  "noGuidelines = (\<lambda>repoRoot rel. NoFile)"

text \<open>
  The three tests of the loop of popDeferredForScope, read on a value of the
  DeferredProposal interface. The lemmas of the next section show that the loop computes
  exactly these on the object of such a value.
\<close>

definition expired :: "int \<Rightarrow> DeferredProposal \<Rightarrow> bool" where
  "expired now p = (now - deferredAt p > MAX_DEFERRED_AGE_MS)"

definition effectivePaths :: "DeferredProposal \<Rightarrow> string list" where
  "effectivePaths p = (if files p \<noteq> [] then files p else allowed_paths p)"

definition matchesScope :: "string \<Rightarrow> DeferredProposal \<Rightarrow> bool" where
  "matchesScope ns p =
     (ns = [] \<or> effectivePaths p = [] \<or>
      list_all (\<lambda>f. prefix ns f \<or> prefix (ns @ ''/'') f) (effectivePaths p))"

text \<open>The proposals of the state that readRunState returns.\<close>

definition backlog :: "world \<Rightarrow> string \<Rightarrow> json list" where
  "backlog w repoRoot = elements w (deferredProposals (readRunState w repoRoot))"

text \<open>A proposal for the examples: a title, the files it touches, the time it was deferred.\<close>

definition exampleProposal :: "string \<Rightarrow> string list \<Rightarrow> int \<Rightarrow> DeferredProposal" where
  "exampleProposal t fs at =
     \<lparr>category = ''refactor'', title = t, description = ''later'', files = fs,
      allowed_paths = [], confidence = 80, impact_score = 5,
      original_scope = ''src/**'', deferredAt = at\<rparr>"

section \<open>The loop on well-typed proposals\<close>

lemma bindE_simps [simp]:
  "bindE (Inl e) f = Inl e"
  "bindE (Inr x) f = f x"
  by (simp_all add: bindE_def)

lemma getProp_proposalObject:
  "getProp (Some (proposalObject p)) ''title'' = Inr (Some (JStr (title p)))"
  "getProp (Some (proposalObject p)) ''files'' = Inr (Some (JArr (map JStr (files p))))"
  "getProp (Some (proposalObject p)) ''allowed_paths'' =
     Inr (Some (JArr (map JStr (allowed_paths p))))"
  "getProp (Some (proposalObject p)) ''deferredAt'' = Inr (Some (JNum (deferredAt p)))"
  by (simp_all add: proposalObject_def)

lemma proposalObject_inj: "proposalObject p = proposalObject q \<Longrightarrow> p = q"
  by (cases p, cases q) (simp add: proposalObject_def inj_on_def)

lemma isStale_proposalObject: "isStale now (proposalObject p) = Inr (expired now p)"
  by (simp add: isStale_def getProp_proposalObject expired_def)

lemma effectiveFiles_proposalObject:
  "effectiveFiles (proposalObject p) = Inr (Some (JArr (map JStr (effectivePaths p))))"
  by (simp add: effectiveFiles_def getProp_proposalObject effectivePaths_def)

lemma every_scopeCallback:
  "every (scopeCallback ns) (map JStr fs) =
     Inr (list_all (\<lambda>f. prefix ns f \<or> prefix (ns @ ''/'') f) fs)"
  by (induction fs) (simp_all add: scopeCallback_def)

lemma inScope_strings:
  "inScope ns (Some (JArr (map JStr fs))) =
     Inr (ns = [] \<or> fs = [] \<or> list_all (\<lambda>f. prefix ns f \<or> prefix (ns @ ''/'') f) fs)"
  by (auto simp: inScope_def every_scopeCallback)

lemma popLoop_typed:
  "popLoop now ns (map proposalObject dps) m r =
     Inr (m @ map proposalObject (filter (\<lambda>p. \<not> expired now p \<and> matchesScope ns p) dps),
          r @ map proposalObject (filter (\<lambda>p. \<not> expired now p \<and> \<not> matchesScope ns p) dps))"
  by (induction dps arbitrary: m r)
     (simp_all add: isStale_proposalObject effectiveFiles_proposalObject inScope_strings
        matchesScope_def)

section \<open>Reading back what was written\<close>

lemma nullish_not_null: "nullish v (JNum 0) \<noteq> JNull"
  by (cases "(v, JNum 0)" rule: nullish.cases) simp_all

lemma nullish_Some: "v \<noteq> JNull \<Longrightarrow> nullish (Some v) dflt = v"
  by (cases v) simp_all

lemma fromParsed_object:
  "fromParsed (JObj kvs) =
     Inr \<lparr>totalCycles = nullish (map_of kvs ''totalCycles'') (JNum 0),
          lastDocsAuditCycle = nullish (map_of kvs ''lastDocsAuditCycle'') (JNum 0),
          lastRunAt = nullish (map_of kvs ''lastRunAt'') (JNum 0),
          deferredProposals =
            (case map_of kvs ''deferredProposals'' of
               Some (JArr xs) \<Rightarrow> OwnArray xs
             | _ \<Rightarrow> OwnArray [])\<rparr>"
  by (simp add: fromParsed_def)

lemma readRunState_cases:
  "readRunState w r = DEFAULT_STATE
   \<or> readRunState w r =
       \<lparr>totalCycles = JNum 0, lastDocsAuditCycle = JNum 0, lastRunAt = JNum 0,
        deferredProposals = OwnArray []\<rparr>
   \<or> (\<exists>kvs. stateFiles w r = Doc (JObj kvs) \<and> fromParsed (JObj kvs) = Inr (readRunState w r))"
proof (cases "stateFiles w r")
  case (Doc parsed)
  then show ?thesis
    by (cases parsed) (simp_all add: readRunState_def fromParsed_def)
qed (simp_all add: readRunState_def)

lemma readRunState_not_null:
  "totalCycles (readRunState w r) \<noteq> JNull"
  "lastDocsAuditCycle (readRunState w r) \<noteq> JNull"
  "lastRunAt (readRunState w r) \<noteq> JNull"
proof -
  have "totalCycles (readRunState w r) \<noteq> JNull
      \<and> lastDocsAuditCycle (readRunState w r) \<noteq> JNull
      \<and> lastRunAt (readRunState w r) \<noteq> JNull"
    using readRunState_cases [of w r]
  proof (elim disjE exE conjE)
    fix kvs
    assume "fromParsed (JObj kvs) = Inr (readRunState w r)"
    then have "readRunState w r =
       \<lparr>totalCycles = nullish (map_of kvs ''totalCycles'') (JNum 0),
        lastDocsAuditCycle = nullish (map_of kvs ''lastDocsAuditCycle'') (JNum 0),
        lastRunAt = nullish (map_of kvs ''lastRunAt'') (JNum 0),
        deferredProposals =
          (case map_of kvs ''deferredProposals'' of
             Some (JArr xs) \<Rightarrow> OwnArray xs
           | _ \<Rightarrow> OwnArray [])\<rparr>"
      by (simp add: fromParsed_object)
    then show ?thesis
      by (metis RunState.select_convs(1,2,3) nullish_not_null)
  qed (simp_all add: DEFAULT_STATE_def)
  then show "totalCycles (readRunState w r) \<noteq> JNull"
    "lastDocsAuditCycle (readRunState w r) \<noteq> JNull"
    "lastRunAt (readRunState w r) \<noteq> JNull" by simp_all
qed

lemma elements_putFile [simp]: "elements (putFile r f w) a = elements w a"
  by (cases a) (simp_all add: putFile_def)

lemma elements_writeRunState [simp]: "elements (writeRunState r s w) a = elements w a"
  by (simp add: writeRunState_def)

lemma stateFiles_putFile [simp]:
  "stateFiles (putFile r f w) r = f"
  "r' \<noteq> r \<Longrightarrow> stateFiles (putFile r f w) r' = stateFiles w r'"
  by (simp_all add: putFile_def)

lemma readRunState_writeRunState:
  assumes "totalCycles s \<noteq> JNull" "lastDocsAuditCycle s \<noteq> JNull" "lastRunAt s \<noteq> JNull"
  shows "readRunState (writeRunState r s w) r
     = s\<lparr>deferredProposals := OwnArray (elements w (deferredProposals s))\<rparr>"
  using assms
  by (simp add: readRunState_def writeRunState_def stateDoc_def fromParsed_object nullish_Some)

lemma readRunState_typedState_written:
  "readRunState (writeRunState r (typedState tc la lr dps) w) r = typedState tc la lr dps"
  using readRunState_writeRunState [of "typedState tc la lr dps" r w]
  by (simp add: typedState_def)

lemma backlog_writeRunState:
  assumes "totalCycles s \<noteq> JNull" "lastDocsAuditCycle s \<noteq> JNull" "lastRunAt s \<noteq> JNull"
  shows "backlog (writeRunState r s w) r = elements w (deferredProposals s)"
  using readRunState_writeRunState [OF assms, of r w] by (simp add: backlog_def)

lemma backlog_typed:
  "readRunState w r = typedState tc la lr dps \<Longrightarrow> backlog w r = map proposalObject dps"
  by (simp add: backlog_def typedState_def)

lemma putFile_twice: "putFile r f (putFile r g w) = putFile r f w"
  by (simp add: putFile_def)

lemma stateDoc_putFile: "stateDoc (putFile r f w) s = stateDoc w s"
  by (simp add: stateDoc_def)

lemma writeRunState_twice:
  "writeRunState r s (writeRunState r s' w) = writeRunState r s w"
  by (simp add: writeRunState_def putFile_twice stateDoc_putFile)

section \<open>popDeferredForScope on a well-typed state\<close>

lemma popDeferredForScope_typed:
  assumes "readRunState w r = typedState tc la lr dps"
  shows "popDeferredForScope now r scope w =
    (Inr (map proposalObject
            (filter (\<lambda>p. \<not> expired now p \<and> matchesScope (normalizedScope scope) p) dps)),
     if filter (\<lambda>p. \<not> expired now p \<and> matchesScope (normalizedScope scope) p) dps \<noteq> []
        \<or> length (filter (\<lambda>p. \<not> expired now p \<and> \<not> matchesScope (normalizedScope scope) p) dps)
            \<noteq> length dps
     then writeRunState r
            (typedState tc la lr
               (filter (\<lambda>p. \<not> expired now p \<and> \<not> matchesScope (normalizedScope scope) p) dps)) w
     else w)"
proof -
  have dp: "elements w (deferredProposals (readRunState w r)) = map proposalObject dps"
    using assms by (simp add: typedState_def)
  show ?thesis
    unfolding popDeferredForScope_def Let_def dp popLoop_typed
    using assms by (simp add: typedState_def)
qed

lemma filter_same_length: "length (filter P xs) = length xs \<Longrightarrow> filter P xs = xs"
  by (metis filter_True length_filter_less less_irrefl_nat)

lemma popDeferredForScope_typed_read:
  assumes "readRunState w r = typedState tc la lr dps"
  shows "readRunState (snd (popDeferredForScope now r scope w)) r =
     typedState tc la lr
       (filter (\<lambda>p. \<not> expired now p \<and> \<not> matchesScope (normalizedScope scope) p) dps)"
proof -
  let ?kept = "filter (\<lambda>p. \<not> expired now p \<and> \<not> matchesScope (normalizedScope scope) p) dps"
  show ?thesis
  proof (cases "filter (\<lambda>p. \<not> expired now p \<and> matchesScope (normalizedScope scope) p) dps \<noteq> []
        \<or> length ?kept \<noteq> length dps")
    case True
    then show ?thesis
      using popDeferredForScope_typed [OF assms, of now scope]
      by (simp add: readRunState_typedState_written)
  next
    case False
    then have "?kept = dps" by (simp add: filter_same_length)
    then show ?thesis
      using False popDeferredForScope_typed [OF assms, of now scope] assms by simp
  qed
qed

lemma exampleProposal_sel [simp]:
  "title (exampleProposal t fs at) = t"
  "files (exampleProposal t fs at) = fs"
  "allowed_paths (exampleProposal t fs at) = []"
  "deferredAt (exampleProposal t fs at) = at"
  by (simp_all add: exampleProposal_def)

lemma normalizedScope_pkg: "normalizedScope ''pkg'' = ''pkg''"
  by (simp add: normalizedScope_def stripSuffix_def suffix_to_prefix)

section \<open>Scope matching\<close>

text \<open>
  C1. The claim: an unexpired proposal is popped exactly when the normalized scope is
  empty, or its effective paths are empty, or every effective path equals the scope or
  starts with the scope followed by a slash. The code pops more: its first test is
  \<^verbatim>\<open>f.startsWith(normalizedScope)\<close>, not an equality, so a path in a sibling directory
  whose name merely begins with the scope is in scope too. Here a proposal on
  \<^verbatim>\<open>pkgfoo/a.ts\<close>, deferred one second ago, is returned and removed for scope \<^verbatim>\<open>pkg\<close>,
  although the path neither equals \<^verbatim>\<open>pkg\<close> nor starts with \<^verbatim>\<open>pkg/\<close>.
\<close>

theorem popDeferredForScope_returns_sibling_directory:
  "popDeferredForScope 2000 ''r'' ''pkg''
     (writeRunState ''r'' (typedState 1 0 1000 [exampleProposal ''Tidy'' [''pkgfoo/a.ts''] 1000])
        freshProcess)
   = (Inr [proposalObject (exampleProposal ''Tidy'' [''pkgfoo/a.ts''] 1000)],
      writeRunState ''r'' (typedState 1 0 1000 []) freshProcess)
   \<and> \<not> 2000 - deferredAt (exampleProposal ''Tidy'' [''pkgfoo/a.ts''] 1000) > MAX_DEFERRED_AGE_MS
   \<and> normalizedScope ''pkg'' = ''pkg''
   \<and> \<not> (''pkgfoo/a.ts'' = ''pkg'' \<or> prefix (''pkg'' @ ''/'') ''pkgfoo/a.ts'')"
proof -
  let ?p = "exampleProposal ''Tidy'' [''pkgfoo/a.ts''] 1000"
  let ?w = "writeRunState ''r'' (typedState 1 0 1000 [?p]) freshProcess"
  have rd: "readRunState ?w ''r'' = typedState 1 0 1000 [?p]"
    by (rule readRunState_typedState_written)
  have e: "\<not> expired 2000 ?p"
    by (simp add: expired_def MAX_DEFERRED_AGE_MS_def)
  have m: "matchesScope ''pkg'' ?p"
    by (simp add: matchesScope_def effectivePaths_def)
  show ?thesis
    using popDeferredForScope_typed [OF rd, of 2000 "''pkg''"] e m
    by (simp add: normalizedScope_pkg writeRunState_twice MAX_DEFERRED_AGE_MS_def)
qed

section \<open>Pruning\<close>

text \<open>
  C2. On a well-typed stored state, popDeferredForScope returns no proposal older than
  seven days (\<open>now - deferredAt > 604800000\<close>) and keeps none in the backlog, whatever
  the scope; and whenever it returned or pruned a proposal, the file it leaves is the one
  writeRunState produces from the backlog that is left.
\<close>

theorem popDeferredForScope_prunes_expired:
  assumes "readRunState w repoRoot = typedState tc la lr dps"
  shows "\<exists>matched kept w'.
      popDeferredForScope now repoRoot scope w = (Inr matched, w')
    \<and> readRunState w' repoRoot = typedState tc la lr kept
    \<and> (\<forall>p\<in>set dps. now - deferredAt p > MAX_DEFERRED_AGE_MS \<longrightarrow>
          proposalObject p \<notin> set matched \<and> p \<notin> set kept
          \<and> proposalObject p \<notin> set (backlog w' repoRoot))
    \<and> (matched \<noteq> [] \<or> (\<exists>p\<in>set dps. now - deferredAt p > MAX_DEFERRED_AGE_MS) \<longrightarrow>
          w' = writeRunState repoRoot (typedState tc la lr kept) w)"
proof -
  let ?ns = "normalizedScope scope"
  let ?matched = "filter (\<lambda>p. \<not> expired now p \<and> matchesScope ?ns p) dps"
  let ?kept = "filter (\<lambda>p. \<not> expired now p \<and> \<not> matchesScope ?ns p) dps"
  let ?res = "popDeferredForScope now repoRoot scope w"
  have res: "?res = (Inr (map proposalObject ?matched), snd ?res)"
    using popDeferredForScope_typed [OF assms, of now scope] by simp
  have rd: "readRunState (snd ?res) repoRoot = typedState tc la lr ?kept"
    by (rule popDeferredForScope_typed_read [OF assms])
  have gone: "proposalObject p \<notin> set (map proposalObject ?matched) \<and> p \<notin> set ?kept
      \<and> proposalObject p \<notin> set (backlog (snd ?res) repoRoot)"
    if "p \<in> set dps" "now - deferredAt p > MAX_DEFERRED_AGE_MS" for p
  proof -
    have "expired now p" using that by (simp add: expired_def)
    then have "p \<notin> set ?matched" "p \<notin> set ?kept" by simp_all
    then show ?thesis
      unfolding backlog_typed [OF rd] using proposalObject_inj by auto
  qed
  have written: "snd ?res = writeRunState repoRoot (typedState tc la lr ?kept) w"
    if "map proposalObject ?matched \<noteq> []
        \<or> (\<exists>p\<in>set dps. now - deferredAt p > MAX_DEFERRED_AGE_MS)"
  proof -
    have "?matched \<noteq> [] \<or> length ?kept \<noteq> length dps"
    proof (cases "?matched = []")
      case True
      then have "map proposalObject ?matched = []" by simp
      with that obtain p where "p \<in> set dps" "now - deferredAt p > MAX_DEFERRED_AGE_MS"
        by blast
      then have p: "p \<in> set dps" "expired now p" by (simp_all add: expired_def)
      then have "p \<notin> set ?kept" by simp
      then have "?kept \<noteq> dps" using p by metis
      then show ?thesis using filter_same_length by blast
    qed simp
    then show ?thesis
      using popDeferredForScope_typed [OF assms, of now scope] by simp
  qed
  show ?thesis
    apply (rule exI [of _ "map proposalObject ?matched"])
    apply (rule exI [of _ ?kept])
    apply (rule exI [of _ "snd ?res"])
    using res rd gone written by blast
qed

text \<open>
  An expired proposal outside the scope next to a fresh one inside it: the hypothesis
  holds, the expired one is pruned and the fresh one returned.
\<close>

theorem popDeferredForScope_prunes_expired_witness:
  "readRunState
     (writeRunState ''r''
        (typedState 5 3 1000
           [exampleProposal ''Old'' [''other/x.ts''] 0,
            exampleProposal ''In'' [''pkg/foo.ts''] 1699999999000]) freshProcess) ''r''
   = typedState 5 3 1000
       [exampleProposal ''Old'' [''other/x.ts''] 0,
        exampleProposal ''In'' [''pkg/foo.ts''] 1699999999000]
   \<and> 1700000000000 - deferredAt (exampleProposal ''Old'' [''other/x.ts''] 0) > MAX_DEFERRED_AGE_MS
   \<and> (\<exists>matched kept w'.
        popDeferredForScope 1700000000000 ''r'' ''pkg/**''
          (writeRunState ''r''
             (typedState 5 3 1000
                [exampleProposal ''Old'' [''other/x.ts''] 0,
                 exampleProposal ''In'' [''pkg/foo.ts''] 1699999999000]) freshProcess)
          = (Inr matched, w')
        \<and> proposalObject (exampleProposal ''Old'' [''other/x.ts''] 0) \<notin> set matched
        \<and> exampleProposal ''Old'' [''other/x.ts''] 0 \<notin> set kept
        \<and> w' = writeRunState ''r'' (typedState 5 3 1000 kept)
                 (writeRunState ''r''
                    (typedState 5 3 1000
                       [exampleProposal ''Old'' [''other/x.ts''] 0,
                        exampleProposal ''In'' [''pkg/foo.ts''] 1699999999000]) freshProcess))"
proof -
  let ?old = "exampleProposal ''Old'' [''other/x.ts''] 0"
  let ?dps = "[?old, exampleProposal ''In'' [''pkg/foo.ts''] 1699999999000]"
  let ?w = "writeRunState ''r'' (typedState 5 3 1000 ?dps) freshProcess"
  have h: "readRunState ?w ''r'' = typedState 5 3 1000 ?dps"
    by (rule readRunState_typedState_written)
  have m: "?old \<in> set ?dps" by simp
  have a: "1700000000000 - deferredAt ?old > MAX_DEFERRED_AGE_MS"
    by (simp add: MAX_DEFERRED_AGE_MS_def)
  from popDeferredForScope_prunes_expired [OF h, of 1700000000000 "''pkg/**''"]
  obtain matched kept w' where
    "popDeferredForScope 1700000000000 ''r'' ''pkg/**'' ?w = (Inr matched, w')"
    "\<forall>p\<in>set ?dps. 1700000000000 - deferredAt p > MAX_DEFERRED_AGE_MS \<longrightarrow>
          proposalObject p \<notin> set matched \<and> p \<notin> set kept
          \<and> proposalObject p \<notin> set (backlog w' ''r'')"
    "matched \<noteq> [] \<or> (\<exists>p\<in>set ?dps. 1700000000000 - deferredAt p > MAX_DEFERRED_AGE_MS) \<longrightarrow>
          w' = writeRunState ''r'' (typedState 5 3 1000 kept) ?w"
    by blast
  with m a have "popDeferredForScope 1700000000000 ''r'' ''pkg/**'' ?w = (Inr matched, w')
      \<and> proposalObject ?old \<notin> set matched \<and> ?old \<notin> set kept
      \<and> w' = writeRunState ''r'' (typedState 5 3 1000 kept) ?w"
    by blast
  then show ?thesis using h a by blast
qed

section \<open>The other operations on a well-typed state\<close>

lemma recordCycle_typed:
  assumes "readRunState w r = typedState tc la lr dps"
  shows "recordCycle now r w =
     (Inr (typedState (tc + 1) la now dps), writeRunState r (typedState (tc + 1) la now dps) w)"
  using assms by (simp add: recordCycle_def typedState_def Let_def)

lemma recordDocsAudit_typed:
  assumes "readRunState w r = typedState tc la lr dps"
  shows "recordDocsAudit r w = (Inr (), writeRunState r (typedState tc tc lr dps) w)"
  using assms by (simp add: recordDocsAudit_def typedState_def Let_def)

lemma someTitle_typed:
  "someTitle (map proposalObject dps) t = Inr (t \<in> title ` set dps)"
  by (induction dps) (auto simp: getProp_proposalObject)

lemma deferProposal_typed:
  assumes "readRunState w r = typedState tc la lr dps"
  shows "deferProposal r q w =
     (Inr (), if title q \<in> title ` set dps then w
              else writeRunState r (typedState tc la lr (dps @ [q])) w)"
proof -
  have dp: "elements w (deferredProposals (readRunState w r)) = map proposalObject dps"
    using assms by (simp add: typedState_def)
  show ?thesis
    unfolding deferProposal_def Let_def dp someTitle_typed
    using assms by (simp add: typedState_def)
qed

lemma isDocsAuditDue_typed:
  assumes "readRunState w r = typedState tc la lr dps"
  shows "isDocsAuditDue r k w = (Inr (tc - la \<ge> k), w)"
  using assms by (simp add: isDocsAuditDue_def typedState_def Let_def)

text \<open>
  C3, as the claim states it, fails: only popDeferredForScope looks at deferredAt. A
  proposal deferred at time 0 is still returned by readRunState at time 1700000000000,
  and recordCycle returns it and writes it back.
\<close>

theorem stored_expired_proposal_survives_recordCycle:
  "1700000000000 - deferredAt (exampleProposal ''Old'' [''a.ts''] 0) > MAX_DEFERRED_AGE_MS
   \<and> proposalObject (exampleProposal ''Old'' [''a.ts''] 0)
       \<in> set (backlog
           (writeRunState ''r'' (typedState 1 0 0 [exampleProposal ''Old'' [''a.ts''] 0])
              freshProcess) ''r'')
   \<and> recordCycle 1700000000000 ''r''
       (writeRunState ''r'' (typedState 1 0 0 [exampleProposal ''Old'' [''a.ts''] 0])
          freshProcess)
     = (Inr (typedState 2 0 1700000000000 [exampleProposal ''Old'' [''a.ts''] 0]),
        writeRunState ''r''
          (typedState 2 0 1700000000000 [exampleProposal ''Old'' [''a.ts''] 0]) freshProcess)"
proof -
  let ?old = "exampleProposal ''Old'' [''a.ts''] 0"
  let ?w = "writeRunState ''r'' (typedState 1 0 0 [?old]) freshProcess"
  have rd: "readRunState ?w ''r'' = typedState 1 0 0 [?old]"
    by (rule readRunState_typedState_written)
  have a: "1700000000000 - deferredAt ?old > MAX_DEFERRED_AGE_MS"
    by (simp add: MAX_DEFERRED_AGE_MS_def)
  have b: "proposalObject ?old \<in> set (backlog ?w ''r'')"
    unfolding backlog_typed [OF rd] by simp
  have c: "recordCycle 1700000000000 ''r'' ?w
     = (Inr (typedState 2 0 1700000000000 [?old]),
        writeRunState ''r'' (typedState 2 0 1700000000000 [?old]) freshProcess)"
    using recordCycle_typed [OF rd, of 1700000000000] by (simp add: writeRunState_twice)
  show ?thesis using a b c by blast
qed

text \<open>
  C3, amended. A proposal older than seven days is dropped by popDeferredForScope only:
  after a popDeferredForScope call on a well-typed stored state it is neither among
  the returned proposals nor in the backing file. readRunState returns it, recordCycle
  returns it and writes it back, and recordDocsAudit and deferProposal leave it in the
  backing file.
\<close>

theorem only_popDeferredForScope_prunes:
  assumes "readRunState w repoRoot = typedState tc la lr dps"
      and "p \<in> set dps"
      and "now - deferredAt p > MAX_DEFERRED_AGE_MS"
  shows "(\<exists>matched w'. popDeferredForScope now repoRoot scope w = (Inr matched, w')
            \<and> proposalObject p \<notin> set matched
            \<and> proposalObject p \<notin> set (backlog w' repoRoot))
       \<and> proposalObject p \<in> set (backlog w repoRoot)
       \<and> (\<exists>s w'. recordCycle now repoRoot w = (Inr s, w')
            \<and> proposalObject p \<in> set (elements w' (deferredProposals s))
            \<and> proposalObject p \<in> set (backlog w' repoRoot))
       \<and> proposalObject p
            \<in> set (backlog (snd (recordDocsAudit repoRoot w)) repoRoot)
       \<and> proposalObject p
            \<in> set (backlog (snd (deferProposal repoRoot q w)) repoRoot)"
proof -
  let ?ns = "normalizedScope scope"
  let ?res = "popDeferredForScope now repoRoot scope w"
  have ex: "expired now p" using assms(3) by (simp add: expired_def)
  have mem: "proposalObject p \<in> set (map proposalObject dps)"
    using assms(2) by simp
  have pop: "\<exists>matched w'. ?res = (Inr matched, w')
            \<and> proposalObject p \<notin> set matched
            \<and> proposalObject p \<notin> set (backlog w' repoRoot)"
  proof -
    have 1: "?res = (Inr (map proposalObject
            (filter (\<lambda>p. \<not> expired now p \<and> matchesScope ?ns p) dps)), snd ?res)"
      using popDeferredForScope_typed [OF assms(1), of now scope] by simp
    have 2: "proposalObject p \<notin> set (map proposalObject
            (filter (\<lambda>p. \<not> expired now p \<and> matchesScope ?ns p) dps))"
      using ex proposalObject_inj by auto
    have 3: "proposalObject p \<notin> set (backlog (snd ?res) repoRoot)"
      unfolding backlog_typed [OF popDeferredForScope_typed_read [OF assms(1)]]
      using ex proposalObject_inj by auto
    show ?thesis using 1 2 3 by blast
  qed
  have rd: "proposalObject p \<in> set (backlog w repoRoot)"
    unfolding backlog_typed [OF assms(1)] using mem .
  have rc: "\<exists>s w'. recordCycle now repoRoot w = (Inr s, w')
            \<and> proposalObject p \<in> set (elements w' (deferredProposals s))
            \<and> proposalObject p \<in> set (backlog w' repoRoot)"
    unfolding recordCycle_typed [OF assms(1)]
    using mem
    by (simp add: backlog_typed [OF readRunState_typedState_written]) (simp add: typedState_def)
  have ra: "proposalObject p
      \<in> set (backlog (snd (recordDocsAudit repoRoot w)) repoRoot)"
    unfolding recordDocsAudit_typed [OF assms(1)]
    using mem by (simp add: backlog_typed [OF readRunState_typedState_written])
  have dfp: "proposalObject p
      \<in> set (backlog (snd (deferProposal repoRoot q w)) repoRoot)"
  proof (cases "title q \<in> title ` set dps")
    case True
    then show ?thesis
      unfolding deferProposal_typed [OF assms(1)] using rd by simp
  next
    case False
    then show ?thesis
      unfolding deferProposal_typed [OF assms(1)]
      using mem by (simp add: backlog_typed [OF readRunState_typedState_written])
  qed
  show ?thesis using pop rd rc ra dfp by blast
qed

theorem only_popDeferredForScope_prunes_witness:
  "readRunState
     (writeRunState ''r'' (typedState 1 0 0 [exampleProposal ''Old'' [''a.ts''] 0]) freshProcess)
     ''r''
   = typedState 1 0 0 [exampleProposal ''Old'' [''a.ts''] 0]
   \<and> exampleProposal ''Old'' [''a.ts''] 0 \<in> set [exampleProposal ''Old'' [''a.ts''] 0]
   \<and> 1700000000000 - deferredAt (exampleProposal ''Old'' [''a.ts''] 0) > MAX_DEFERRED_AGE_MS
   \<and> (\<exists>matched w'.
         popDeferredForScope 1700000000000 ''r'' ''lib''
           (writeRunState ''r'' (typedState 1 0 0 [exampleProposal ''Old'' [''a.ts''] 0])
              freshProcess) = (Inr matched, w')
         \<and> proposalObject (exampleProposal ''Old'' [''a.ts''] 0) \<notin> set matched
         \<and> proposalObject (exampleProposal ''Old'' [''a.ts''] 0)
             \<notin> set (backlog w' ''r''))
   \<and> proposalObject (exampleProposal ''Old'' [''a.ts''] 0)
       \<in> set (backlog
           (snd (recordDocsAudit ''r''
              (writeRunState ''r'' (typedState 1 0 0 [exampleProposal ''Old'' [''a.ts''] 0])
                 freshProcess))) ''r'')"
proof -
  let ?old = "exampleProposal ''Old'' [''a.ts''] 0"
  let ?w = "writeRunState ''r'' (typedState 1 0 0 [?old]) freshProcess"
  have h: "readRunState ?w ''r'' = typedState 1 0 0 [?old]"
    by (rule readRunState_typedState_written)
  have m: "?old \<in> set [?old]" by simp
  have a: "1700000000000 - deferredAt ?old > MAX_DEFERRED_AGE_MS"
    by (simp add: MAX_DEFERRED_AGE_MS_def)
  show ?thesis
    using h m a only_popDeferredForScope_prunes [OF h m a, of "''lib''" ?old] by blast
qed

section \<open>Scope normalization\<close>

lemma normalizedScope_plain:
  assumes "\<not> suffix ''*'' s" and "\<not> suffix ''/'' s"
  shows "normalizedScope s = s"
proof -
  have "suffix ''*'' ''**''"
    by (rule suffixI [of _ "''*''"]) simp
  then have "\<not> suffix ''**'' s"
    using assms(1) suffix_order.trans by blast
  then show ?thesis
    using assms by (simp add: normalizedScope_def stripSuffix_def)
qed

lemma normalizedScope_slash:
  assumes "\<not> suffix ''*'' s" and "\<not> suffix ''/'' s"
  shows "normalizedScope (s @ ''/'') = s"
  using assms by (simp add: normalizedScope_def stripSuffix_def suffix_to_prefix)

lemma normalizedScope_slash_star:
  assumes "\<not> suffix ''*'' s" and "\<not> suffix ''/'' s"
  shows "normalizedScope (s @ ''/*'') = s"
  using assms by (simp add: normalizedScope_def stripSuffix_def suffix_to_prefix)

lemma normalizedScope_slash_star_star:
  assumes "\<not> suffix ''*'' s" and "\<not> suffix ''/'' s"
  shows "normalizedScope (s @ ''/**'') = s"
  using assms by (simp add: normalizedScope_def stripSuffix_def suffix_to_prefix)

lemma popDeferredForScope_normalized:
  "normalizedScope a = normalizedScope b \<Longrightarrow>
     popDeferredForScope now r a w = popDeferredForScope now r b w"
  by (simp add: popDeferredForScope_def)

text \<open>
  C4. normalizedScope strips a trailing \<^verbatim>\<open>**\<close>, then a trailing \<^verbatim>\<open>*\<close>, then a trailing
  \<^verbatim>\<open>/\<close>, each only if it is there. For a scope \<open>s\<close> that ends in neither \<^verbatim>\<open>*\<close> nor
  \<^verbatim>\<open>/\<close>, the four spellings \<open>s\<close>, \<open>s/\<close>, \<open>s/*\<close> and \<open>s/**\<close> normalize to \<open>s\<close>,
  and popDeferredForScope returns the same proposals and leaves the same world for all
  four.
\<close>

theorem normalizedScope_spellings:
  assumes "\<not> suffix ''*'' s" and "\<not> suffix ''/'' s"
  shows "normalizedScope x = stripSuffix ''/'' (stripSuffix ''*'' (stripSuffix ''**'' x))
       \<and> stripSuffix suf (y @ suf) = y
       \<and> (\<not> suffix suf y \<longrightarrow> stripSuffix suf y = y)
       \<and> normalizedScope s = s
       \<and> normalizedScope (s @ ''/'') = s
       \<and> normalizedScope (s @ ''/*'') = s
       \<and> normalizedScope (s @ ''/**'') = s
       \<and> popDeferredForScope now r (s @ ''/'') w = popDeferredForScope now r s w
       \<and> popDeferredForScope now r (s @ ''/*'') w = popDeferredForScope now r s w
       \<and> popDeferredForScope now r (s @ ''/**'') w = popDeferredForScope now r s w"
proof -
  have n: "normalizedScope s = s" "normalizedScope (s @ ''/'') = s"
    "normalizedScope (s @ ''/*'') = s" "normalizedScope (s @ ''/**'') = s"
    using assms
    by (rule normalizedScope_plain normalizedScope_slash normalizedScope_slash_star
          normalizedScope_slash_star_star)+
  have p: "popDeferredForScope now r (s @ ''/'') w = popDeferredForScope now r s w"
    "popDeferredForScope now r (s @ ''/*'') w = popDeferredForScope now r s w"
    "popDeferredForScope now r (s @ ''/**'') w = popDeferredForScope now r s w"
    by (rule popDeferredForScope_normalized, simp only: n)+
  have s: "stripSuffix suf (y @ suf) = y" "\<not> suffix suf y \<longrightarrow> stripSuffix suf y = y"
    by (simp_all add: stripSuffix_def suffixI)
  show ?thesis using n p s by (simp add: normalizedScope_def)
qed

theorem normalizedScope_spellings_witness:
  "\<not> suffix ''*'' ''pkg'' \<and> \<not> suffix ''/'' ''pkg''
   \<and> stripSuffix ''/'' ''pkg/'' = ''pkg''
   \<and> stripSuffix ''/'' ''pkg'' = ''pkg''
   \<and> normalizedScope ''pkg'' = ''pkg''
   \<and> normalizedScope ''pkg/'' = ''pkg''
   \<and> normalizedScope ''pkg/*'' = ''pkg''
   \<and> normalizedScope ''pkg/**'' = ''pkg''
   \<and> popDeferredForScope 2000 ''r'' ''pkg/**''
        (writeRunState ''r'' (typedState 1 0 1000 [exampleProposal ''In'' [''pkg/foo.ts''] 1000])
           freshProcess)
      = popDeferredForScope 2000 ''r'' ''pkg''
        (writeRunState ''r'' (typedState 1 0 1000 [exampleProposal ''In'' [''pkg/foo.ts''] 1000])
           freshProcess)"
proof -
  have a: "\<not> suffix ''*'' ''pkg''" and b: "\<not> suffix ''/'' ''pkg''"
    by (simp_all add: suffix_to_prefix)
  show ?thesis
    using a b normalizedScope_spellings [OF a b, of "''pkg''" "''/''" "''pkg''" 2000 "''r''"
      "writeRunState ''r'' (typedState 1 0 1000 [exampleProposal ''In'' [''pkg/foo.ts''] 1000])
           freshProcess"]
    unfolding append_Cons append_Nil by blast
qed

section \<open>The docs audit\<close>

text \<open>
  C5, as the claim states it, fails for an interval that is not positive: right after
  recordDocsAudit the difference is 0, and \<open>0 >= 0\<close>.
\<close>

theorem isDocsAuditDue_zero_interval_after_audit:
  "fst (isDocsAuditDue ''r'' 0
          (snd (recordDocsAudit ''r'' (writeRunState ''r'' (typedState 5 2 0 []) freshProcess))))
   = Inr True"
proof -
  let ?w = "writeRunState ''r'' (typedState 5 2 0 []) freshProcess"
  have h: "readRunState ?w ''r'' = typedState 5 2 0 []"
    by (rule readRunState_typedState_written)
  have "readRunState (snd (recordDocsAudit ''r'' ?w)) ''r'' = typedState 5 5 0 []"
    unfolding recordDocsAudit_typed [OF h] by (simp add: readRunState_typedState_written)
  from isDocsAuditDue_typed [OF this, of 0] show ?thesis by simp
qed

text \<open>
  C5, amended. On a well-typed stored state isDocsAuditDue(root, k) returns true exactly
  when \<open>totalCycles - lastDocsAuditCycle >= k\<close>, and leaves the world as it was. Right
  after recordDocsAudit it returns false for every \<open>k > 0\<close> (and true for \<open>k <= 0\<close>).
\<close>

theorem isDocsAuditDue_iff:
  assumes "readRunState w repoRoot = typedState tc la lr dps"
  shows "isDocsAuditDue repoRoot k w = (Inr (tc - la \<ge> k), w)
       \<and> isDocsAuditDue repoRoot k (snd (recordDocsAudit repoRoot w))
           = (Inr (k \<le> 0), snd (recordDocsAudit repoRoot w))"
proof -
  have "readRunState (snd (recordDocsAudit repoRoot w)) repoRoot = typedState tc tc lr dps"
    unfolding recordDocsAudit_typed [OF assms] by (simp add: readRunState_typedState_written)
  from isDocsAuditDue_typed [OF this, of k] isDocsAuditDue_typed [OF assms, of k]
  show ?thesis by simp
qed

theorem isDocsAuditDue_iff_witness:
  "readRunState (writeRunState ''r'' (typedState 5 2 0 []) freshProcess) ''r''
     = typedState 5 2 0 []
   \<and> isDocsAuditDue ''r'' 3 (writeRunState ''r'' (typedState 5 2 0 []) freshProcess)
     = (Inr True, writeRunState ''r'' (typedState 5 2 0 []) freshProcess)
   \<and> fst (isDocsAuditDue ''r'' 3
        (snd (recordDocsAudit ''r'' (writeRunState ''r'' (typedState 5 2 0 []) freshProcess))))
     = Inr False"
proof -
  let ?w = "writeRunState ''r'' (typedState 5 2 0 []) freshProcess"
  have h: "readRunState ?w ''r'' = typedState 5 2 0 []"
    by (rule readRunState_typedState_written)
  show ?thesis using h isDocsAuditDue_iff [OF h, of 3] by simp
qed

section \<open>Round trip and corrupt files\<close>

text \<open>
  C6. For a RunState with integer counters and fully populated proposals, readRunState
  after writeRunState returns the state that was written.
\<close>

theorem writeRunState_readRunState_roundtrip:
  "readRunState (writeRunState repoRoot (typedState tc la lr dps) w) repoRoot
     = typedState tc la lr dps"
  using readRunState_writeRunState [of "typedState tc la lr dps" repoRoot w]
  by (simp add: typedState_def)

text \<open>
  C7. The claim: a state file that is not valid JSON reads as the zero state, with no
  deferred proposal. The code returns \<^verbatim>\<open>{ ...DEFAULT_STATE }\<close>, whose deferredProposals is
  the array of the constant itself, and that array is empty only until deferProposal
  runs for a repository without a readable state file: it pushes its proposal into
  the array it was given, the shared one. Here deferProposal is called for repository
  \<^verbatim>\<open>a\<close>, which has no state file, in a process that has just started; after that,
  repository \<^verbatim>\<open>b\<close>, whose state file is not valid JSON, reads with the proposal of
  \<^verbatim>\<open>a\<close> in its backlog.
\<close>

theorem readRunState_invalid_json_after_deferProposal:
  "stateFiles
     (putFile ''b'' Invalid
        (snd (deferProposal ''a'' (exampleProposal ''Tidy'' [''src/a.ts''] 1000) freshProcess)))
     ''b'' = Invalid
   \<and> readRunState
       (putFile ''b'' Invalid
          (snd (deferProposal ''a'' (exampleProposal ''Tidy'' [''src/a.ts''] 1000) freshProcess)))
       ''b'' = DEFAULT_STATE
   \<and> backlog
       (putFile ''b'' Invalid
          (snd (deferProposal ''a'' (exampleProposal ''Tidy'' [''src/a.ts''] 1000) freshProcess)))
       ''b'' = [proposalObject (exampleProposal ''Tidy'' [''src/a.ts''] 1000)]
   \<and> backlog (putFile ''b'' Invalid freshProcess) ''b'' = []"
  by (simp add: deferProposal_def readRunState_def freshProcess_def DEFAULT_STATE_def
        backlog_def putFile_def writeRunState_def)

section \<open>Truncation of the guidelines\<close>

lemma readGuidelinesFile_Some:
  assumes "readGuidelinesFile now t root rel = Some g"
  shows "\<exists>c. t root rel = Text c
     \<and> g = \<lparr>content = (if length c > MAX_CHARS then take MAX_CHARS c @ truncationMarker else c),
            source = rel, loadedAt = now\<rparr>"
  using assms by (auto simp: readGuidelinesFile_def split: guideFile.splits)

lemma searchPaths_Some:
  "searchPaths now t root ps = Some g \<Longrightarrow>
     \<exists>rel. rel \<in> set ps \<and> readGuidelinesFile now t root rel = Some g"
  by (induction ps) (auto split: option.splits)

lemma loadGuidelines_Some:
  assumes "loadGuidelines now t root opts = Some g"
  shows "\<exists>rel. readGuidelinesFile now t root rel = Some g"
proof (cases "customPath opts")
  case CustomFalse
  then show ?thesis using assms by (simp add: loadGuidelines_def)
next
  case (CustomString p)
  then show ?thesis using assms by (auto simp: loadGuidelines_def)
next
  case CustomNone
  then show ?thesis
    using assms searchPaths_Some
    by (auto simp: loadGuidelines_def Let_def split: option.splits) blast+
qed

text \<open>
  C8. Whatever loadGuidelines returns was read from the file at its source: when that
  file has more than 4000 units the content is its first 4000 units followed by the
  marker (two newlines and \<^verbatim>\<open>[truncated]\<close>), otherwise the content is the file's text,
  with no marker. For a custom path that names a readable file this is what
  loadGuidelines returns.
\<close>

theorem loadGuidelines_truncates:
  shows "(\<forall>g. loadGuidelines now t repoRoot opts = Some g \<longrightarrow>
            (\<exists>c. t repoRoot (source g) = Text c
               \<and> (if length c > 4000
                   then content g = take 4000 c @ [CHR 0x0A, CHR 0x0A] @ ''[truncated]''
                      \<and> length (take 4000 c) = 4000
                   else content g = c)))
       \<and> (\<forall>rel c. customPath opts = CustomString rel \<and> t repoRoot rel = Text c \<longrightarrow>
            loadGuidelines now t repoRoot opts =
              Some \<lparr>content =
                      (if length c > 4000
                       then take 4000 c @ [CHR 0x0A, CHR 0x0A] @ ''[truncated]'' else c),
                    source = rel, loadedAt = now\<rparr>)"
proof -
  have 1: "\<exists>c. t repoRoot (source g) = Text c
               \<and> (if length c > 4000
                   then content g = take 4000 c @ [CHR 0x0A, CHR 0x0A] @ ''[truncated]''
                      \<and> length (take 4000 c) = 4000
                   else content g = c)"
    if "loadGuidelines now t repoRoot opts = Some g" for g
  proof -
    from loadGuidelines_Some [OF that] obtain rel where
      "readGuidelinesFile now t repoRoot rel = Some g" by blast
    from readGuidelinesFile_Some [OF this] obtain c where
      c: "t repoRoot rel = Text c"
      "g = \<lparr>content = (if length c > MAX_CHARS then take MAX_CHARS c @ truncationMarker else c),
            source = rel, loadedAt = now\<rparr>" by blast
    show ?thesis
      by (rule exI [of _ c]) (simp add: c MAX_CHARS_def truncationMarker_def)
  qed
  have 2: "loadGuidelines now t repoRoot opts =
              Some \<lparr>content =
                      (if length c > 4000
                       then take 4000 c @ [CHR 0x0A, CHR 0x0A] @ ''[truncated]'' else c),
                    source = rel, loadedAt = now\<rparr>"
    if "customPath opts = CustomString rel \<and> t repoRoot rel = Text c" for rel c
    using that
    by (simp add: loadGuidelines_def readGuidelinesFile_def MAX_CHARS_def truncationMarker_def)
  show ?thesis using 1 2 by blast
qed

theorem loadGuidelines_truncates_witness:
  "loadGuidelines 5
     (noGuidelines(''r'' := (noGuidelines ''r'')(''CLAUDE.md'' := Text (replicate 4001 CHR ''a''))))
     ''r'' \<lparr>backend = None, customPath = CustomNone\<rparr>
   = Some \<lparr>content = replicate 4000 CHR ''a'' @ [CHR 0x0A, CHR 0x0A] @ ''[truncated]'',
           source = ''CLAUDE.md'', loadedAt = 5\<rparr>
   \<and> loadGuidelines 5
     (noGuidelines(''r'' := (noGuidelines ''r'')(''docs/G.md'' := Text ''Keep it short.'')))
     ''r'' \<lparr>backend = Some Codex, customPath = CustomString ''docs/G.md''\<rparr>
   = Some \<lparr>content = ''Keep it short.'', source = ''docs/G.md'', loadedAt = 5\<rparr>"
proof -
  let ?t = "noGuidelines(''r'' := (noGuidelines ''r'')(''CLAUDE.md'' := Text (replicate 4001 CHR ''a'')))"
  let ?o = "\<lparr>backend = None, customPath = CustomNone\<rparr>"
  let ?t2 = "noGuidelines(''r'' := (noGuidelines ''r'')(''docs/G.md'' := Text ''Keep it short.''))"
  let ?o2 = "\<lparr>backend = Some Codex, customPath = CustomString ''docs/G.md''\<rparr>"
  obtain g where g: "loadGuidelines 5 ?t ''r'' ?o = Some g"
    and src: "source g = ''CLAUDE.md''" and at: "loadedAt g = 5"
    by (simp add: loadGuidelines_def CLAUDE_PATHS_def readGuidelinesFile_def)
  from loadGuidelines_truncates [of 5 ?t "''r''" ?o] g obtain c where
    c: "?t ''r'' (source g) = Text c"
    "if length c > 4000
       then content g = take 4000 c @ [CHR 0x0A, CHR 0x0A] @ ''[truncated]''
          \<and> length (take 4000 c) = 4000
       else content g = c"
    by blast
  from c(1) have "c = replicate 4001 CHR ''a''" by (simp add: src)
  with c(2) have "content g = replicate 4000 CHR ''a'' @ [CHR 0x0A, CHR 0x0A] @ ''[truncated]''"
    by simp
  with src at have "g = \<lparr>content = replicate 4000 CHR ''a'' @ [CHR 0x0A, CHR 0x0A] @ ''[truncated]'',
           source = ''CLAUDE.md'', loadedAt = 5\<rparr>" by simp
  with g have 1: "loadGuidelines 5 ?t ''r'' ?o
     = Some \<lparr>content = replicate 4000 CHR ''a'' @ [CHR 0x0A, CHR 0x0A] @ ''[truncated]'',
           source = ''CLAUDE.md'', loadedAt = 5\<rparr>" by simp
  have "customPath ?o2 = CustomString ''docs/G.md'' \<and> ?t2 ''r'' ''docs/G.md'' = Text ''Keep it short.''"
    by simp
  with loadGuidelines_truncates [of 5 ?t2 "''r''" ?o2]
  have 2: "loadGuidelines 5 ?t2 ''r'' ?o2
     = Some \<lparr>content = ''Keep it short.'', source = ''docs/G.md'', loadedAt = 5\<rparr>"
    by simp
  show ?thesis using 1 2 by simp
qed

section \<open>Fields an operation does not own\<close>

lemma readRunState_written_own:
  "readRunState (writeRunState r ((readRunState w0 r)\<lparr>deferredProposals := OwnArray xs\<rparr>) w) r
     = (readRunState w0 r)\<lparr>deferredProposals := OwnArray xs\<rparr>"
  using readRunState_writeRunState
    [of "(readRunState w0 r)\<lparr>deferredProposals := OwnArray xs\<rparr>" r w]
  by (simp add: readRunState_not_null)

text \<open>
  C9. The claim: a mutating operation changes only its own fields of the persisted
  state; recordCycle changes only totalCycles and lastRunAt, recordDocsAudit only
  lastDocsAuditCycle. The code breaks it through the array that every copy of
  \<^verbatim>\<open>DEFAULT_STATE\<close> shares. Here deferProposal is called for repository \<^verbatim>\<open>a\<close>, which
  has no state file, in a process that has just started: its proposal lands in the
  shared array. Repository \<^verbatim>\<open>e\<close> still has no state file, so its persisted state has no
  deferred proposal. recordCycle for \<^verbatim>\<open>e\<close>, and recordDocsAudit as well, then reads the
  default state, whose array now holds the proposal of \<^verbatim>\<open>a\<close>, and writes a file for
  \<^verbatim>\<open>e\<close> with that proposal in deferredProposals. In a process where nothing was pushed,
  the same recordCycle writes an empty deferredProposals.
\<close>

theorem recordCycle_writes_proposal_of_other_repository:
  "stateFiles
     (snd (deferProposal ''a'' (exampleProposal ''Tidy'' [''src/a.ts''] 1000) freshProcess))
     ''e'' = Absent
   \<and> stateFiles
       (snd (recordCycle 50 ''e''
          (snd (deferProposal ''a'' (exampleProposal ''Tidy'' [''src/a.ts''] 1000)
             freshProcess))))
       ''e''
     = Doc (JObj
         [(''totalCycles'', JNum 1), (''lastDocsAuditCycle'', JNum 0), (''lastRunAt'', JNum 50),
          (''deferredProposals'',
           JArr [proposalObject (exampleProposal ''Tidy'' [''src/a.ts''] 1000)])])
   \<and> stateFiles
       (snd (recordDocsAudit ''e''
          (snd (deferProposal ''a'' (exampleProposal ''Tidy'' [''src/a.ts''] 1000)
             freshProcess))))
       ''e''
     = Doc (JObj
         [(''totalCycles'', JNum 0), (''lastDocsAuditCycle'', JNum 0), (''lastRunAt'', JNum 0),
          (''deferredProposals'',
           JArr [proposalObject (exampleProposal ''Tidy'' [''src/a.ts''] 1000)])])
   \<and> stateFiles (snd (recordCycle 50 ''e'' freshProcess)) ''e''
     = Doc (JObj
         [(''totalCycles'', JNum 1), (''lastDocsAuditCycle'', JNum 0), (''lastRunAt'', JNum 50),
          (''deferredProposals'', JArr [])])"
  by (simp add: deferProposal_def recordCycle_def recordDocsAudit_def readRunState_def
        freshProcess_def DEFAULT_STATE_def putFile_def writeRunState_def stateDoc_def)

section \<open>Elements that are not proposals\<close>

lemma popLoop_accumulates:
  "popLoop now ns xs m r = Inr (m', r') \<Longrightarrow> set m \<subseteq> set m' \<and> set r \<subseteq> set r'"
proof (induction xs arbitrary: m r)
  case Nil
  then show ?case by simp
next
  case (Cons x xs)
  from Cons.prems obtain stale where st: "isStale now x = Inr stale"
    by (cases "isStale now x") simp_all
  show ?case
  proof (cases stale)
    case True
    then show ?thesis using Cons st by simp
  next
    case False
    from Cons.prems st False obtain fs where fs: "effectiveFiles x = Inr fs"
      by (cases "effectiveFiles x") simp_all
    from Cons.prems st False fs obtain ok where ok: "inScope ns fs = Inr ok"
      by (cases "inScope ns fs") simp_all
    show ?thesis
    proof (cases ok)
      case True
      with Cons.prems st False fs ok
      have "popLoop now ns xs (m @ [x]) r = Inr (m', r')" by simp
      from Cons.IH [OF this] show ?thesis by simp
    next
      case no: False
      with Cons.prems st False fs ok
      have "popLoop now ns xs m (r @ [x]) = Inr (m', r')" by simp
      from Cons.IH [OF this] show ?thesis by simp
    qed
  qed
qed

lemma popLoop_keeps_unexpired:
  "popLoop now ns xs m r = Inr (m', r') \<Longrightarrow> x \<in> set xs \<Longrightarrow> isStale now x = Inr False \<Longrightarrow>
     x \<in> set m' \<or> x \<in> set r'"
proof (induction xs arbitrary: m r)
  case Nil
  then show ?case by simp
next
  case (Cons y ys)
  from Cons.prems(1) obtain stale where st: "isStale now y = Inr stale"
    by (cases "isStale now y") simp_all
  show ?case
  proof (cases stale)
    case True
    then have "x \<noteq> y" using st Cons.prems(3) by auto
    then show ?thesis using Cons True st by simp
  next
    case False
    from Cons.prems(1) st False obtain fs where fs: "effectiveFiles y = Inr fs"
      by (cases "effectiveFiles y") simp_all
    from Cons.prems(1) st False fs obtain ok where ok: "inScope ns fs = Inr ok"
      by (cases "inScope ns fs") simp_all
    show ?thesis
    proof (cases ok)
      case True
      with Cons.prems st False fs ok
      have loop: "popLoop now ns ys (m @ [y]) r = Inr (m', r')" by simp
      show ?thesis
      proof (cases "x = y")
        case True
        then show ?thesis using popLoop_accumulates [OF loop] by auto
      next
        case False
        then show ?thesis using Cons.IH [OF loop] Cons.prems by simp
      qed
    next
      case no: False
      with Cons.prems st False fs ok
      have loop: "popLoop now ns ys m (r @ [y]) = Inr (m', r')" by simp
      show ?thesis
      proof (cases "x = y")
        case True
        then show ?thesis using popLoop_accumulates [OF loop] by auto
      next
        case False
        then show ?thesis using Cons.IH [OF loop] Cons.prems by simp
      qed
    qed
  qed
qed

lemma popDeferredForScope_keeps_unexpired:
  assumes "popDeferredForScope now r scope w = (Inr matched, w')"
      and "x \<in> set (backlog w r)"
      and "isStale now x = Inr False"
  shows "x \<in> set matched \<or> x \<in> set (backlog w' r)"
proof -
  let ?xs = "elements w (deferredProposals (readRunState w r))"
  from assms(1) obtain m rem where
    loop: "popLoop now (normalizedScope scope) ?xs [] [] = Inr (m, rem)"
    by (cases "popLoop now (normalizedScope scope) ?xs [] []")
       (auto simp: popDeferredForScope_def Let_def)
  have "x \<in> set ?xs" using assms(2) by (simp add: backlog_def)
  from popLoop_keeps_unexpired [OF loop this assms(3)]
  have in_mr: "x \<in> set m \<or> x \<in> set rem" .
  show ?thesis
  proof (cases "length m > 0 \<or> length rem \<noteq> length ?xs")
    case True
    then have "matched = m"
      "w' = writeRunState r ((readRunState w r)\<lparr>deferredProposals := OwnArray rem\<rparr>) w"
      using assms(1) loop by (auto simp: popDeferredForScope_def Let_def)
    then show ?thesis
      using in_mr by (simp add: backlog_def readRunState_written_own)
  next
    case False
    then have "matched = m" "w' = w"
      using assms(1) loop by (auto simp: popDeferredForScope_def Let_def)
    then show ?thesis using assms(2) by simp
  qed
qed

text \<open>
  C10, as the claim states it, fails for a deferredAt that is not a number: \<^verbatim>\<open>null\<close> is
  converted to 0 by the subtraction, so at time 1700000000000 the element is older than
  seven days and popDeferredForScope prunes it, although its path is outside the scope.
\<close>

theorem null_deferredAt_is_pruned:
  "isStale 1700000000000
     (JObj [(''title'', JStr ''t''), (''files'', JArr [JStr ''other/x.ts'']),
            (''allowed_paths'', JArr []), (''deferredAt'', JNull)]) = Inr True
   \<and> popDeferredForScope 1700000000000 ''r'' ''pkg''
       (putFile ''r'' (Doc (JObj [(''deferredProposals'', JArr
          [JObj [(''title'', JStr ''t''), (''files'', JArr [JStr ''other/x.ts'']),
                 (''allowed_paths'', JArr []), (''deferredAt'', JNull)]])])) freshProcess)
     = (Inr [], writeRunState ''r'' (typedState 0 0 0 []) freshProcess)"
  by (simp add: isStale_def popDeferredForScope_def readRunState_def fromParsed_object
        MAX_DEFERRED_AGE_MS_def typedState_def writeRunState_def putFile_twice
        stateDoc_def)

text \<open>
  C10, amended. When the file holds an object whose deferredProposals is an array,
  readRunState defaults the three counters one by one and returns the elements of the
  array as they are stored. An element without deferredAt is never stale: a
  popDeferredForScope call that returns leaves it among the returned proposals or in
  the backing file. A deferredAt of \<^verbatim>\<open>null\<close>, \<^verbatim>\<open>true\<close> or \<^verbatim>\<open>false\<close> counts as 0, 1 or 0:
  such an element is stale exactly when the clock minus that number exceeds seven days.
  An element without title is no duplicate for deferProposal, and reading the files of
  an element without files raises a TypeError.
\<close>

theorem stored_elements_are_not_validated:
  assumes "stateFiles w repoRoot = Doc (JObj kvs)"
      and "map_of kvs ''deferredProposals'' = Some (JArr xs)"
  shows "readRunState w repoRoot =
           \<lparr>totalCycles = nullish (map_of kvs ''totalCycles'') (JNum 0),
            lastDocsAuditCycle = nullish (map_of kvs ''lastDocsAuditCycle'') (JNum 0),
            lastRunAt = nullish (map_of kvs ''lastRunAt'') (JNum 0),
            deferredProposals = OwnArray xs\<rparr>
       \<and> (map_of props ''deferredAt'' = None \<longrightarrow> isStale now (JObj props) = Inr False)
       \<and> (JObj props \<in> set xs \<and> map_of props ''deferredAt'' = None
            \<and> popDeferredForScope now repoRoot scope w = (Inr matched, w')
          \<longrightarrow> JObj props \<in> set matched
              \<or> JObj props \<in> set (backlog w' repoRoot))
       \<and> (map_of props ''deferredAt'' = Some JNull \<longrightarrow>
            isStale now (JObj props) = Inr (now > MAX_DEFERRED_AGE_MS))
       \<and> (map_of props ''deferredAt'' = Some (JBool b) \<longrightarrow>
            isStale now (JObj props) = Inr (now - (if b then 1 else 0) > MAX_DEFERRED_AGE_MS))
       \<and> (map_of props ''title'' = None \<longrightarrow>
            someTitle (JObj props # rest) t = someTitle rest t)
       \<and> (map_of props ''files'' = None \<longrightarrow> effectiveFiles (JObj props) = Inl TypeError)"
proof -
  have rd: "readRunState w repoRoot =
           \<lparr>totalCycles = nullish (map_of kvs ''totalCycles'') (JNum 0),
            lastDocsAuditCycle = nullish (map_of kvs ''lastDocsAuditCycle'') (JNum 0),
            lastRunAt = nullish (map_of kvs ''lastRunAt'') (JNum 0),
            deferredProposals = OwnArray xs\<rparr>"
    using assms by (simp add: readRunState_def fromParsed_object)
  have fresh: "isStale now (JObj props) = Inr False" if "map_of props ''deferredAt'' = None"
    using that by (simp add: isStale_def)
  have kept: "JObj props \<in> set matched
              \<or> JObj props \<in> set (backlog w' repoRoot)"
    if "JObj props \<in> set xs \<and> map_of props ''deferredAt'' = None
            \<and> popDeferredForScope now repoRoot scope w = (Inr matched, w')"
  proof -
    have "JObj props \<in> set (backlog w repoRoot)"
      using that rd by (simp add: backlog_def)
    then show ?thesis
      using popDeferredForScope_keeps_unexpired [of now repoRoot scope w matched w' "JObj props"]
        that fresh by blast
  qed
  have null: "isStale now (JObj props) = Inr (now > MAX_DEFERRED_AGE_MS)"
    if "map_of props ''deferredAt'' = Some JNull"
    using that by (simp add: isStale_def)
  have bool: "isStale now (JObj props) = Inr (now - (if b then 1 else 0) > MAX_DEFERRED_AGE_MS)"
    if "map_of props ''deferredAt'' = Some (JBool b)"
    using that by (simp add: isStale_def)
  have ttl: "someTitle (JObj props # rest) t = someTitle rest t"
    if "map_of props ''title'' = None"
    using that by simp
  have fls: "effectiveFiles (JObj props) = Inl TypeError" if "map_of props ''files'' = None"
    using that by (simp add: effectiveFiles_def)
  show ?thesis using rd fresh kept null bool ttl fls by blast
qed

theorem stored_elements_are_not_validated_witness:
  "stateFiles (putFile ''r'' (Doc (JObj [(''totalCycles'', JNum 4), (''deferredProposals'', JArr
       [JObj [(''files'', JArr [JStr ''pkg/a.ts'']), (''allowed_paths'', JArr [])]])])) freshProcess)
       ''r''
     = Doc (JObj [(''totalCycles'', JNum 4), (''deferredProposals'', JArr
       [JObj [(''files'', JArr [JStr ''pkg/a.ts'']), (''allowed_paths'', JArr [])]])])
   \<and> map_of [(''totalCycles'', JNum 4), (''deferredProposals'', JArr
       [JObj [(''files'', JArr [JStr ''pkg/a.ts'']), (''allowed_paths'', JArr [])]])]
       ''deferredProposals''
     = Some (JArr [JObj [(''files'', JArr [JStr ''pkg/a.ts'']), (''allowed_paths'', JArr [])]])
   \<and> readRunState
       (putFile ''r'' (Doc (JObj [(''totalCycles'', JNum 4), (''deferredProposals'', JArr
          [JObj [(''files'', JArr [JStr ''pkg/a.ts'']), (''allowed_paths'', JArr [])]])]))
          freshProcess)
       ''r''
     = \<lparr>totalCycles = JNum 4, lastDocsAuditCycle = JNum 0, lastRunAt = JNum 0,
        deferredProposals =
          OwnArray [JObj [(''files'', JArr [JStr ''pkg/a.ts'']), (''allowed_paths'', JArr [])]]\<rparr>
   \<and> isStale 1700000000000
        (JObj [(''files'', JArr [JStr ''pkg/a.ts'']), (''allowed_paths'', JArr [])]) = Inr False
   \<and> fst (popDeferredForScope 1700000000000 ''r'' ''pkg''
       (putFile ''r'' (Doc (JObj [(''totalCycles'', JNum 4), (''deferredProposals'', JArr
          [JObj [(''files'', JArr [JStr ''pkg/a.ts'']), (''allowed_paths'', JArr [])]])]))
          freshProcess))
     = Inr [JObj [(''files'', JArr [JStr ''pkg/a.ts'']), (''allowed_paths'', JArr [])]]
   \<and> someTitle [JObj [(''files'', JArr [JStr ''pkg/a.ts'']), (''allowed_paths'', JArr [])]] ''t''
     = Inr False
   \<and> isStale 1700000000000 (JObj [(''deferredAt'', JNull)]) = Inr True
   \<and> isStale 1700000000000 (JObj [(''deferredAt'', JBool True)]) = Inr True
   \<and> effectiveFiles (JObj [(''deferredAt'', JNull)]) = Inl TypeError"
proof -
  let ?x = "JObj [(''files'', JArr [JStr ''pkg/a.ts'']), (''allowed_paths'', JArr [])]"
  let ?kvs = "[(''totalCycles'', JNum 4), (''deferredProposals'', JArr [?x])]"
  let ?w = "putFile ''r'' (Doc (JObj ?kvs)) freshProcess"
  have h1: "stateFiles ?w ''r'' = Doc (JObj ?kvs)" by simp
  have h2: "map_of ?kvs ''deferredProposals'' = Some (JArr [?x])" by simp
  have h3: "map_of [(''files'', JArr [JStr ''pkg/a.ts'']), (''allowed_paths'', JArr [])]
      ''deferredAt'' = None" by simp
  have h4: "map_of [(''files'', JArr [JStr ''pkg/a.ts'']), (''allowed_paths'', JArr [])]
      ''title'' = None" by simp
  note t = stored_elements_are_not_validated
      [where w = ?w and repoRoot = "''r''" and kvs = ?kvs and xs = "[?x]"
         and props = "[(''files'', JArr [JStr ''pkg/a.ts'']), (''allowed_paths'', JArr [])]"
         and now = 1700000000000 and scope = "''pkg''" and rest = "[]" and t = "''t''",
       OF h1 h2]
  have rd: "readRunState ?w ''r''
     = \<lparr>totalCycles = JNum 4, lastDocsAuditCycle = JNum 0, lastRunAt = JNum 0,
        deferredProposals = OwnArray [?x]\<rparr>"
    using t by simp
  have st: "isStale 1700000000000 ?x = Inr False"
    using t h3 by blast
  have ttl: "someTitle [?x] ''t'' = Inr False"
    using t h4 by simp
  have pop: "fst (popDeferredForScope 1700000000000 ''r'' ''pkg'' ?w) = Inr [?x]"
    unfolding popDeferredForScope_def Let_def rd
    by (simp add: st effectiveFiles_def inScope_def scopeCallback_def normalizedScope_pkg)
  note u = stored_elements_are_not_validated
      [where w = ?w and repoRoot = "''r''" and kvs = ?kvs and xs = "[?x]"
         and props = "[(''deferredAt'', JNull)]" and now = 1700000000000, OF h1 h2]
  have nul: "isStale 1700000000000 (JObj [(''deferredAt'', JNull)]) = Inr True"
    "effectiveFiles (JObj [(''deferredAt'', JNull)]) = Inl TypeError"
    using u by (simp_all add: MAX_DEFERRED_AGE_MS_def)
  note v = stored_elements_are_not_validated
      [where w = ?w and repoRoot = "''r''" and kvs = ?kvs and xs = "[?x]"
         and props = "[(''deferredAt'', JBool True)]" and b = True
         and now = 1700000000000, OF h1 h2]
  have tru: "isStale 1700000000000 (JObj [(''deferredAt'', JBool True)]) = Inr True"
    using v by (simp add: MAX_DEFERRED_AGE_MS_def)
  show ?thesis using h1 h2 rd st pop ttl nul tru by blast
qed

end
